theory Spec2Isabelle
  imports Complex_Main "HOL-Library.AList"
begin

section \<open>JavaScript values, abrupt completion, console\<close>

text \<open>
  The values that reach the core modules. \<open>JNum 0\<close> is \<open>+0\<close> and \<open>JNegZero\<close> is
  \<open>-0\<close>; objects and functions are references compared by identity: \<open>JRef\<close> for
  those the client code makes, \<open>JBuiltin\<close> for those of the language, known by name.
\<close>

datatype jsval =
    JUndefined
  | JNull
  | JBool bool
  | JNum real
  | JNaN
  | JNegZero
  | JPosInf
  | JNegInf
  | JStr string
  | JRef nat
  | JBuiltin string

text \<open>The operator \<open>===\<close>: \<open>NaN\<close> differs from itself, the two zeros are equal.\<close>

fun strict_eq :: "jsval \<Rightarrow> jsval \<Rightarrow> bool" where
  "strict_eq JNaN _ = False"
| "strict_eq _ JNaN = False"
| "strict_eq (JNum x) JNegZero = (x = 0)"
| "strict_eq JNegZero (JNum x) = (x = 0)"
| "strict_eq a b = (a = b)"

text \<open>
  A call either returns or throws. \<open>TypeError\<close> is what the runtime raises when a
  property of \<open>null\<close> is read; \<open>Thrown v\<close> is a \<open>throw\<close> of the value \<open>v\<close>.
\<close>

datatype thrown = TypeError | Thrown jsval

datatype outcome = Returned | Threw thrown

type_synonym 's comp = "'s \<Rightarrow> outcome \<times> 's"

definition andThen :: "'s comp \<Rightarrow> 's comp \<Rightarrow> 's comp" where
  "andThen f g s = (case f s of (Returned, s') \<Rightarrow> g s' | (Threw e, s') \<Rightarrow> (Threw e, s'))"

definition try_catch :: "'s comp \<Rightarrow> (thrown \<Rightarrow> 's comp) \<Rightarrow> 's comp" where
  "try_catch body handler s =
     (case body s of (Returned, s') \<Rightarrow> (Returned, s') | (Threw e, s') \<Rightarrow> handler e s')"

text \<open>\<open>Array.prototype.forEach\<close> over a list value: an exception leaving the body ends the loop.\<close>

fun forEach :: "('a \<Rightarrow> 's comp) \<Rightarrow> 'a list \<Rightarrow> 's comp" where
  "forEach f [] s = (Returned, s)"
| "forEach f (x # xs) s =
     (case f x s of (Returned, s') \<Rightarrow> forEach f xs s' | (Threw e, s') \<Rightarrow> (Threw e, s'))"

text \<open>
  Console output, one constructor per call site of the modules below (the message
  texts themselves are fixed templates around the arguments kept here).
\<close>

datatype console_entry =
    Error_callback string thrown
  | Error_watcher string thrown
  | Warn_no_loading_state string
  | Log_stage string
  | Warn_not_connected
  | Log_connecting
  | Log_opened
  | Error_socket
  | Log_closed
  | Log_reconnecting

section \<open>EventBus\<close>

text \<open>
  The class \<open>EventBus\<close> (src/static/js/core/WebSocketManager.js, lines 204 to 320).

  A subscriber is a function object. \<open>Fn i\<close> is a function of the client code, known by
  its identity \<open>i\<close>; \<open>OnceWrapper n name i\<close> is the closure that the \<open>n\<close>-th call of
  \<open>once\<close> builds around \<open>eventName = name\<close> and \<open>callback = Fn i\<close>.

  \<open>events\<close> and \<open>onceEvents\<close> are the two \<open>Map\<close>s of the class, as association lists
  in insertion order. The array kept under a name is reachable through the \<open>Map\<close>
  only, so it is held by value. \<open>wrappers\<close> counts the closures built so far and gives
  each its identity; \<open>bus_outside\<close> is whatever else of the program the subscribers
  can read and write.
\<close>

datatype callback = Fn nat | OnceWrapper nat string nat

record 'w eventbus =
  events :: "(string \<times> callback list) list"
  onceEvents :: "(string \<times> callback list) list"
  wrappers :: nat
  bus_outside :: 'w

definition new_EventBus :: "'w \<Rightarrow> 'w eventbus" where
  "new_EventBus w = \<lparr>events = [], onceEvents = [], wrappers = 0, bus_outside = w\<rparr>"

text \<open>
  What the client functions do when called is a parameter: any function from the
  arguments and the bus to an outcome and a bus. A run of the bus carries, beside the
  bus, the list of calls made and the console; subscribers cannot reach those two.
\<close>

type_synonym ('a, 'w) subscribers = "nat \<Rightarrow> 'a list \<Rightarrow> 'w eventbus \<Rightarrow> outcome \<times> 'w eventbus"

record ('a, 'w) bus_run =
  bus :: "'w eventbus"
  bus_calls :: "(callback \<times> 'a list) list"
  bus_console :: "console_entry list"

definition on :: "string \<Rightarrow> callback \<Rightarrow> 'w eventbus \<Rightarrow> 'w eventbus" where
  "on eventName cb b =
     (case map_of (events b) eventName of
        None \<Rightarrow> b\<lparr>events := AList.update eventName [cb] (events b)\<rparr>
      | Some callbacks \<Rightarrow> b\<lparr>events := AList.update eventName (callbacks @ [cb]) (events b)\<rparr>)"

definition off :: "string \<Rightarrow> callback option \<Rightarrow> 'w eventbus \<Rightarrow> 'w eventbus" where
  "off eventName cb b =
     (case map_of (events b) eventName of
        None \<Rightarrow> b
      | Some callbacks \<Rightarrow>
          (case cb of
             None \<Rightarrow> b\<lparr>events := AList.delete eventName (events b)\<rparr>
           | Some c \<Rightarrow>
               (if remove1 c callbacks = []
                then b\<lparr>events := AList.delete eventName (events b)\<rparr>
                else b\<lparr>events := AList.update eventName (remove1 c callbacks) (events b)\<rparr>)))"

definition once :: "string \<Rightarrow> nat \<Rightarrow> 'w eventbus \<Rightarrow> 'w eventbus" where
  "once eventName i b =
     on eventName (OnceWrapper (wrappers b) eventName i) (b\<lparr>wrappers := Suc (wrappers b)\<rparr>)"

definition call_fn :: "('a, 'w) subscribers \<Rightarrow> nat \<Rightarrow> 'a list \<Rightarrow> ('a, 'w) bus_run comp" where
  "call_fn env i args r =
     (case env i args (bus r) of
        (res, b') \<Rightarrow> (res, r\<lparr>bus := b', bus_calls := bus_calls r @ [(Fn i, args)]\<rparr>))"

text \<open>
  Calling a subscriber. The wrapper of \<open>once\<close> calls \<open>callback\<close> and then
  \<open>this.off(eventName, wrapper)\<close>; when \<open>callback\<close> throws, the second statement is
  not reached.
\<close>

fun invoke :: "('a, 'w) subscribers \<Rightarrow> callback \<Rightarrow> 'a list \<Rightarrow> ('a, 'w) bus_run comp" where
  "invoke env (Fn i) args r = call_fn env i args r"
| "invoke env (OnceWrapper n eventName i) args r =
     andThen (call_fn env i args)
       (\<lambda>r'. (Returned, r'\<lparr>bus := off eventName (Some (OnceWrapper n eventName i)) (bus r')\<rparr>))
       (r\<lparr>bus_calls := bus_calls r @ [(OnceWrapper n eventName i, args)]\<rparr>)"

text \<open>
  \<open>emit\<close> copies the array (\<open>[...callbacks]\<close>) before the first call, so the loop runs
  over the list read at entry.
\<close>

definition emit :: "('a, 'w) subscribers \<Rightarrow> string \<Rightarrow> 'a list \<Rightarrow> ('a, 'w) bus_run comp" where
  "emit env eventName args r =
     (case map_of (events (bus r)) eventName of
        None \<Rightarrow> (Returned, r)
      | Some callbacks \<Rightarrow>
          forEach
            (\<lambda>cb. try_catch (invoke env cb args)
               (\<lambda>error r'. (Returned, r'\<lparr>bus_console := bus_console r' @ [Error_callback eventName error]\<rparr>)))
            callbacks r)"

definition clear :: "'w eventbus \<Rightarrow> 'w eventbus" where
  "clear b = b\<lparr>events := [], onceEvents := []\<rparr>"

definition listenerCount :: "'w eventbus \<Rightarrow> string \<Rightarrow> nat" where
  "listenerCount b eventName =
     (case map_of (events b) eventName of None \<Rightarrow> 0 | Some callbacks \<Rightarrow> length callbacks)"

definition eventNames :: "'w eventbus \<Rightarrow> string list" where
  "eventNames b = map fst (events b)"

text \<open>The subscribers of a name, and the calls that invoking one of them makes.\<close>

definition subscribed :: "'w eventbus \<Rightarrow> string \<Rightarrow> callback list" where
  "subscribed b eventName =
     (case map_of (events b) eventName of None \<Rightarrow> [] | Some callbacks \<Rightarrow> callbacks)"


definition start_bus :: "'w \<Rightarrow> ('a, 'w) bus_run" where
  "start_bus w = \<lparr>bus = new_EventBus w, bus_calls = [], bus_console = []\<rparr>"

text \<open>
  Three client functions for the examples: \<open>Fn 0\<close> throws, \<open>Fn 1\<close> unsubscribes
  \<open>Fn 2\<close> from the event \<open>job\<close> and subscribes \<open>Fn 3\<close>, every other function only
  counts its calls in the outside state.
\<close>

definition demo_subscribers :: "(jsval, nat) subscribers" where
  "demo_subscribers i args b =
     (if i = 0 then (Threw (Thrown (JStr ''boom'')), b)
      else if i = 1 then (Returned, on ''job'' (Fn 3) (off ''job'' (Some (Fn 2)) b))
      else (Returned, b\<lparr>bus_outside := Suc (bus_outside b)\<rparr>))"

section \<open>StateManager\<close>

text \<open>
  The class \<open>StateManager\<close> (src/static/js/core/StateManager.js).

  \<open>state\<close> is the target object behind the proxy, as the list of its own properties
  in insertion order. The target is a plain object, so its prototype is
  \<open>Object.prototype\<close>. \<open>listeners\<close> is the
  \<open>Map\<close> from keys to arrays of watchers, a watcher being a function of the client
  code known by its identity. \<open>sm_outside\<close> is whatever else the watchers can read
  and write.
\<close>

record history_record =
  property :: string
  oldValue :: jsval
  newValue :: jsval
  timestamp :: int
  action :: "string option"

record 'w statemanager =
  state :: "(string \<times> jsval) list"
  listeners :: "(string \<times> nat list) list"
  history :: "history_record list"
  maxHistorySize :: nat
  sm_outside :: 'w

definition new_StateManager :: "(string \<times> jsval) list \<Rightarrow> 'w \<Rightarrow> 'w statemanager" where
  "new_StateManager initialState w =
     \<lparr>state = initialState, listeners = [], history = [], maxHistorySize = 50, sm_outside = w\<rparr>"

text \<open>
  What a watcher does when called with \<open>(newValue, oldValue)\<close> is a parameter: any
  function of the two values and the manager, to an outcome and a manager. A run
  carries the calls made to watchers and the console beside the manager.
\<close>

type_synonym 'w watchers =
  "nat \<Rightarrow> jsval \<Rightarrow> jsval \<Rightarrow> 'w statemanager \<Rightarrow> outcome \<times> 'w statemanager"

record 'w sm_run =
  sm :: "'w statemanager"
  sm_calls :: "(nat \<times> jsval \<times> jsval) list"
  sm_console :: "console_entry list"

text \<open>
  What a plain object inherits: the members of \<open>Object.prototype\<close>. All are
  functions but \<open>__proto__\<close>, an accessor whose getter gives the prototype of the
  object, \<open>Object.prototype\<close> itself.
\<close>

definition Object_prototype :: "(string \<times> jsval) list" where
  "Object_prototype =
     [(''constructor'', JBuiltin ''Object''),
      (''__defineGetter__'', JBuiltin ''Object.prototype.__defineGetter__''),
      (''__defineSetter__'', JBuiltin ''Object.prototype.__defineSetter__''),
      (''hasOwnProperty'', JBuiltin ''Object.prototype.hasOwnProperty''),
      (''__lookupGetter__'', JBuiltin ''Object.prototype.__lookupGetter__''),
      (''__lookupSetter__'', JBuiltin ''Object.prototype.__lookupSetter__''),
      (''isPrototypeOf'', JBuiltin ''Object.prototype.isPrototypeOf''),
      (''propertyIsEnumerable'', JBuiltin ''Object.prototype.propertyIsEnumerable''),
      (''toString'', JBuiltin ''Object.prototype.toString''),
      (''valueOf'', JBuiltin ''Object.prototype.valueOf''),
      (''toLocaleString'', JBuiltin ''Object.prototype.toLocaleString''),
      (''__proto__'', JBuiltin ''Object.prototype'')]"

text \<open>
  Reading \<open>target[key]\<close> (the proxy has no \<open>get\<close> trap, so \<open>this.state[key]\<close> is the
  same read): the own property when there is one, else the inherited member, else
  \<open>undefined\<close>.
\<close>

definition get :: "'w statemanager \<Rightarrow> string \<Rightarrow> jsval" where
  "get s key =
     (case map_of (state s) key of
        Some v \<Rightarrow> v
      | None \<Rightarrow> (case map_of Object_prototype key of Some v \<Rightarrow> v | None \<Rightarrow> JUndefined))"

text \<open>
  Writing \<open>target[key] = value\<close>: an own property is overwritten in place, a new one
  is added at the end, also over an inherited function. The one exception is
  \<open>__proto__\<close> when the target does not own it: the assignment then runs the setter
  of \<open>Object.prototype\<close> and adds no property. (For an object or \<open>null\<close> that setter
  replaces the prototype of the target; the development does not follow the target
  beyond that point and keeps \<open>Object.prototype\<close>.)
\<close>

definition assign :: "string \<Rightarrow> jsval \<Rightarrow> (string \<times> jsval) list \<Rightarrow> (string \<times> jsval) list" where
  "assign key v props =
     (if key = ''__proto__'' \<and> map_of props key = None then props else AList.update key v props)"

text \<open>\<open>push\<close>, then \<open>shift\<close> when the array has grown beyond \<open>maxHistorySize\<close>.\<close>

definition addHistory :: "history_record \<Rightarrow> 'w statemanager \<Rightarrow> 'w statemanager" where
  "addHistory entry s =
     (let pushed = history s @ [entry]
      in s\<lparr>history := (if length pushed > maxHistorySize s then tl pushed else pushed)\<rparr>)"

definition call_watcher :: "'w watchers \<Rightarrow> nat \<Rightarrow> jsval \<Rightarrow> jsval \<Rightarrow> 'w sm_run comp" where
  "call_watcher env cb new old r =
     (case env cb new old (sm r) of
        (res, s') \<Rightarrow> (res, r\<lparr>sm := s', sm_calls := sm_calls r @ [(cb, new, old)]\<rparr>))"

definition notify :: "'w watchers \<Rightarrow> string \<Rightarrow> jsval \<Rightarrow> jsval \<Rightarrow> 'w sm_run comp" where
  "notify env key new old r =
     (case map_of (listeners (sm r)) key of
        None \<Rightarrow> (Returned, r)
      | Some callbacks \<Rightarrow>
          forEach
            (\<lambda>cb. try_catch (call_watcher env cb new old)
               (\<lambda>error r'. (Returned, r'\<lparr>sm_console := sm_console r' @ [Error_watcher key error]\<rparr>)))
            callbacks r)"

text \<open>The two traps of the proxy; \<open>now\<close> is what \<open>Date.now()\<close> returns.\<close>

definition set_trap :: "'w watchers \<Rightarrow> int \<Rightarrow> string \<Rightarrow> jsval \<Rightarrow> 'w sm_run comp" where
  "set_trap env now p v r =
     (let old = get (sm r) p
      in if strict_eq old v then (Returned, r)
         else
           (let s1 = addHistory
                       \<lparr>property = p, oldValue = old, newValue = v, timestamp = now, action = None\<rparr>
                       (sm r);
                s2 = s1\<lparr>state := assign p v (state s1)\<rparr>
            in notify env p v old (r\<lparr>sm := s2\<rparr>)))"

definition deleteProperty :: "'w watchers \<Rightarrow> int \<Rightarrow> string \<Rightarrow> 'w sm_run comp" where
  "deleteProperty env now p r =
     (let old = get (sm r) p;
          s1 = addHistory
                 \<lparr>property = p, oldValue = old, newValue = JUndefined, timestamp = now,
                  action = Some ''delete''\<rparr>
                 (sm r);
          s2 = s1\<lparr>state := AList.delete p (state s1)\<rparr>
      in notify env p JUndefined old (r\<lparr>sm := s2\<rparr>))"

text \<open>
  \<open>set(key, value)\<close>: an object as first argument is assigned property by property
  (\<open>Object.assign\<close>), each assignment going through the trap; anything else is one
  key. \<open>Batch\<close> lists the properties of the object in the order in which
  \<open>Object.assign\<close> visits them (integer keys ascending, then the other keys as
  inserted).
\<close>

datatype set_key = Key string | Batch "(string \<times> jsval) list"

definition set' :: "'w watchers \<Rightarrow> int \<Rightarrow> set_key \<Rightarrow> jsval \<Rightarrow> 'w sm_run comp" where
  "set' env now key v r =
     (case key of
        Batch kvs \<Rightarrow> forEach (\<lambda>kv. set_trap env now (fst kv) (snd kv)) kvs r
      | Key p \<Rightarrow> set_trap env now p v r)"

definition watch :: "string \<Rightarrow> nat \<Rightarrow> 'w statemanager \<Rightarrow> 'w statemanager" where
  "watch key cb s =
     (case map_of (listeners s) key of
        None \<Rightarrow> s\<lparr>listeners := AList.update key [cb] (listeners s)\<rparr>
      | Some callbacks \<Rightarrow> s\<lparr>listeners := AList.update key (callbacks @ [cb]) (listeners s)\<rparr>)"

definition unwatch :: "string \<Rightarrow> nat \<Rightarrow> 'w statemanager \<Rightarrow> 'w statemanager" where
  "unwatch key cb s =
     (case map_of (listeners s) key of
        None \<Rightarrow> s
      | Some callbacks \<Rightarrow>
          (if remove1 cb callbacks = []
           then s\<lparr>listeners := AList.delete key (listeners s)\<rparr>
           else s\<lparr>listeners := AList.update key (remove1 cb callbacks) (listeners s)\<rparr>))"

text \<open>The watchers of a key, and a sequence of operations on the store.\<close>

definition watching :: "'w statemanager \<Rightarrow> string \<Rightarrow> nat list" where
  "watching s key = (case map_of (listeners s) key of None \<Rightarrow> [] | Some callbacks \<Rightarrow> callbacks)"

datatype store_op =
    Set string jsval
  | SetBatch "(string \<times> jsval) list"
  | Delete string
  | Watch string nat
  | Unwatch string nat

fun exec :: "'w watchers \<Rightarrow> int \<times> store_op \<Rightarrow> 'w sm_run comp" where
  "exec env (now, Set p v) r = set' env now (Key p) v r"
| "exec env (now, SetBatch kvs) r = set' env now (Batch kvs) JUndefined r"
| "exec env (now, Delete p) r = deleteProperty env now p r"
| "exec env (now, Watch key cb) r = (Returned, r\<lparr>sm := watch key cb (sm r)\<rparr>)"
| "exec env (now, Unwatch key cb) r = (Returned, r\<lparr>sm := unwatch key cb (sm r)\<rparr>)"

definition run :: "'w watchers \<Rightarrow> (int \<times> store_op) list \<Rightarrow> 'w sm_run comp" where
  "run env ops r = forEach (exec env) ops r"

definition start_sm :: "(string \<times> jsval) list \<Rightarrow> 'w \<Rightarrow> 'w sm_run" where
  "start_sm initialState w = \<lparr>sm = new_StateManager initialState w, sm_calls = [], sm_console = []\<rparr>"

definition history_ok :: "'w statemanager \<Rightarrow> bool" where
  "history_ok s = (maxHistorySize s = 50 \<and> length (history s) \<le> 50)"

text \<open>
  Watchers for the examples: watcher \<open>0\<close> throws, watcher \<open>1\<close> writes the key
  \<open>seen\<close> through the store, every other watcher counts its calls outside.
\<close>

definition demo_watchers :: "nat watchers" where
  "demo_watchers cb new old s =
     (if cb = 0 then (Threw (Thrown (JStr ''boom'')), s)
      else if cb = 1 then
        (Returned,
         sm (snd (set' (\<lambda>c n ov t. (Returned, t)) 0 (Key ''seen'') new
                    \<lparr>sm = s, sm_calls = [], sm_console = []\<rparr>)))
      else (Returned, s\<lparr>sm_outside := Suc (sm_outside s)\<rparr>))"

section \<open>LoadingStateManager\<close>

text \<open>
  The class \<open>LoadingStateManager\<close> (src/static/js/core/WebSocketManager.js, lines 574
  to 862).

  Progress and the estimate are numbers of the language: a finite double, \<open>NaN\<close> or
  an infinity. The sign of a zero is not kept: the only zero divisor below is the
  difference of two integers, which is \<open>+0\<close>, and no zero is printed.
\<close>

datatype double = Finite real | Not_a_Number | Infinity | Minus_Infinity

text \<open>
  The result of an arithmetic operation is the exact result rounded to the nearest
  double (binary64: 53 bits, exponents from \<open>-1022\<close> to \<open>1023\<close>, ties to the even
  neighbour, overflow to an infinity).
\<close>

definition round_ties_even :: "real \<Rightarrow> int" where
  "round_ties_even y =
     (let f = \<lfloor>y\<rfloor>
      in if y - of_int f < 1 / 2 then f
         else if y - of_int f > 1 / 2 then f + 1
         else if even f then f else f + 1)"

definition binary64 :: "real \<Rightarrow> double" where
  "binary64 x =
     (if x = 0 then Finite 0
      else
        (let e = max \<lfloor>log 2 \<bar>x\<bar>\<rfloor> (- 1022);
             q = 2 powr (of_int e - 52);
             y = of_int (round_ties_even (\<bar>x\<bar> / q)) * q
         in if y \<ge> 2 powr 1024 then (if x > 0 then Infinity else Minus_Infinity)
            else Finite (sgn x * y)))"

text \<open>The operators \<open><\<close>, \<open>-\<close> and \<open>/\<close> on numbers, \<open>Math.max\<close>, \<open>Math.min\<close>, \<open>Math.round\<close>.\<close>

fun double_less :: "double \<Rightarrow> double \<Rightarrow> bool" where
  "double_less (Finite x) (Finite y) = (x < y)"
| "double_less (Finite x) Infinity = True"
| "double_less Minus_Infinity (Finite y) = True"
| "double_less Minus_Infinity Infinity = True"
| "double_less _ _ = False"

fun double_sub :: "double \<Rightarrow> double \<Rightarrow> double" where
  "double_sub (Finite x) (Finite y) = binary64 (x - y)"
| "double_sub Not_a_Number _ = Not_a_Number"
| "double_sub _ Not_a_Number = Not_a_Number"
| "double_sub Infinity Infinity = Not_a_Number"
| "double_sub Minus_Infinity Minus_Infinity = Not_a_Number"
| "double_sub Infinity _ = Infinity"
| "double_sub Minus_Infinity _ = Minus_Infinity"
| "double_sub (Finite x) Infinity = Minus_Infinity"
| "double_sub (Finite x) Minus_Infinity = Infinity"

fun double_div :: "double \<Rightarrow> double \<Rightarrow> double" where
  "double_div (Finite x) (Finite y) =
     (if y = 0 then (if x = 0 then Not_a_Number else if x > 0 then Infinity else Minus_Infinity)
      else binary64 (x / y))"
| "double_div Not_a_Number _ = Not_a_Number"
| "double_div _ Not_a_Number = Not_a_Number"
| "double_div (Finite x) _ = Finite 0"
| "double_div Infinity (Finite y) = (if y < 0 then Minus_Infinity else Infinity)"
| "double_div Minus_Infinity (Finite y) = (if y < 0 then Infinity else Minus_Infinity)"
| "double_div _ _ = Not_a_Number"

fun Math_max :: "double \<Rightarrow> double \<Rightarrow> double" where
  "Math_max Not_a_Number _ = Not_a_Number"
| "Math_max _ Not_a_Number = Not_a_Number"
| "Math_max a b = (if double_less a b then b else a)"

fun Math_min :: "double \<Rightarrow> double \<Rightarrow> double" where
  "Math_min Not_a_Number _ = Not_a_Number"
| "Math_min _ Not_a_Number = Not_a_Number"
| "Math_min a b = (if double_less b a then b else a)"

fun Math_round :: "double \<Rightarrow> double" where
  "Math_round (Finite x) = Finite (of_int \<lfloor>x + 1 / 2\<rfloor>)"
| "Math_round a = a"

text \<open>A number is truthy unless it is a zero or \<open>NaN\<close>.\<close>

fun truthy :: "double \<Rightarrow> bool" where
  "truthy (Finite x) = (x \<noteq> 0)"
| "truthy Not_a_Number = False"
| "truthy _ = True"

text \<open>
  The state object of a task. \<open>estimatedTimeRemaining\<close> is \<open>null\<close> until first
  computed; \<open>finished\<close> is a property that only \<open>finishLoading\<close> adds.
\<close>

record task =
  taskId :: string
  message :: string
  progress :: double
  stage :: string
  startTime :: int
  estimatedTimeRemaining :: "double option"
  finished :: "bool option"

text \<open>
  \<open>progressElements\<close> holds what \<open>getElementById\<close> found when the manager was built
  (each element may be missing) and is \<open>null\<close> after \<open>destroy\<close>. Writes to the page,
  events dispatched on \<open>window\<close> and timers set are collected in lists.
\<close>

record elements =
  container :: bool
  progressBar :: bool
  progressPercent :: bool

datatype dom_effect =
    Bar_width double
  | Percent_text double
  | Message_html string "double option"
  | Stage_event string
  | Container_shown
  | Container_hidden

record loadingstatemanager =
  loadingStates :: "(string \<times> task) list"
  progressElements :: "elements option"
  lsm_dom :: "dom_effect list"
  lsm_console :: "console_entry list"
  lsm_timers :: "(nat \<times> string) list"

definition new_LoadingStateManager :: "elements \<Rightarrow> loadingstatemanager" where
  "new_LoadingStateManager found =
     \<lparr>loadingStates = [], progressElements = Some found, lsm_dom = [], lsm_console = [],
      lsm_timers = []\<rparr>"

text \<open>The two default messages, as the UTF-8 bytes of the source literals.\<close>

definition default_loading_message :: string where
  "default_loading_message =
     [CHR 0xE8, CHR 0xBC, CHR 0x89, CHR 0xE5, CHR 0x85, CHR 0xA5, CHR 0xE4, CHR 0xB8, CHR 0xAD]
     @ ''...''"

definition default_finish_message :: string where
  "default_finish_message = [CHR 0xE5, CHR 0xAE, CHR 0x8C, CHR 0xE6, CHR 0x88, CHR 0x90]"

definition updateMessage :: "task \<Rightarrow> loadingstatemanager comp" where
  "updateMessage st m =
     (case progressElements m of
        None \<Rightarrow> (Threw TypeError, m)
      | Some found \<Rightarrow>
          (if \<not> container found then (Returned, m)
           else
             (let shown =
                    (case estimatedTimeRemaining st of
                       None \<Rightarrow> None
                     | Some eta \<Rightarrow>
                         (if truthy eta \<and> double_less (progress st) (Finite 100)
                          then Some (Math_round (double_div eta (Finite 1000))) else None))
              in (Returned, m\<lparr>lsm_dom := lsm_dom m @ [Message_html (message st) shown]\<rparr>))))"

definition updateStageIndicator :: "string \<Rightarrow> loadingstatemanager comp" where
  "updateStageIndicator stg m =
     (Returned, m\<lparr>lsm_console := lsm_console m @ [Log_stage stg],
                  lsm_dom := lsm_dom m @ [Stage_event stg]\<rparr>)"

definition updateUI :: "task \<Rightarrow> loadingstatemanager comp" where
  "updateUI st m =
     (case progressElements m of
        None \<Rightarrow> (Threw TypeError, m)
      | Some found \<Rightarrow>
          (if progressBar found \<and> progressPercent found then
             andThen (updateMessage st) (updateStageIndicator (stage st))
               (m\<lparr>lsm_dom := lsm_dom m
                     @ [Bar_width (progress st), Percent_text (Math_round (progress st))]\<rparr>)
           else (Returned, m)))"

definition showLoadingContainer :: "loadingstatemanager comp" where
  "showLoadingContainer m =
     (case progressElements m of
        None \<Rightarrow> (Threw TypeError, m)
      | Some found \<Rightarrow>
          (if container found then (Returned, m\<lparr>lsm_dom := lsm_dom m @ [Container_shown]\<rparr>)
           else (Returned, m)))"

definition hideLoadingContainer :: "loadingstatemanager comp" where
  "hideLoadingContainer m =
     (case progressElements m of
        None \<Rightarrow> (Threw TypeError, m)
      | Some found \<Rightarrow>
          (if container found then (Returned, m\<lparr>lsm_dom := lsm_dom m @ [Container_hidden]\<rparr>)
           else (Returned, m)))"

text \<open>
  An optional argument is \<open>None\<close> when the caller leaves it out, and then takes the
  default of the parameter list. \<open>now\<close> is what \<open>Date.now()\<close> returns.
\<close>

definition startLoading :: "string \<Rightarrow> string option \<Rightarrow> int \<Rightarrow> loadingstatemanager comp" where
  "startLoading tid msg now m =
     (let st = \<lparr>taskId = tid,
                message = (case msg of None \<Rightarrow> default_loading_message | Some t \<Rightarrow> t),
                progress = Finite 0, stage = ''initializing'', startTime = now,
                estimatedTimeRemaining = None, finished = None\<rparr>
      in andThen (updateUI st) showLoadingContainer
           (m\<lparr>loadingStates := AList.update tid st (loadingStates m)\<rparr>))"

text \<open>
  The estimate \<open>(100 - progress) / rate\<close> with \<open>rate = progress / elapsed\<close>, taken
  when the rate is positive and the progress below 100; \<open>elapsed\<close> is the difference
  of two integer times.
\<close>

definition estimate :: "double \<Rightarrow> int \<Rightarrow> double option \<Rightarrow> double option" where
  "estimate p elapsed previous =
     (let rate = double_div p (Finite (of_int elapsed))
      in if double_less (Finite 0) rate \<and> double_less p (Finite 100)
         then Some (double_div (double_sub (Finite 100) p) rate) else previous)"

definition updateProgress ::
  "string \<Rightarrow> double \<Rightarrow> string option \<Rightarrow> string option \<Rightarrow> int \<Rightarrow> loadingstatemanager comp" where
  "updateProgress tid p msg stg now m =
     (case map_of (loadingStates m) tid of
        None \<Rightarrow> (Returned, m\<lparr>lsm_console := lsm_console m @ [Warn_no_loading_state tid]\<rparr>)
      | Some st \<Rightarrow>
          (let st1 = st\<lparr>progress := Math_min (Finite 100) (Math_max (Finite 0) p)\<rparr>;
               st2 = (case msg of
                        None \<Rightarrow> st1
                      | Some t \<Rightarrow> (if t \<noteq> [] then st1\<lparr>message := t\<rparr> else st1));
               st3 = st2\<lparr>stage := (case stg of None \<Rightarrow> ''processing'' | Some g \<Rightarrow> g)\<rparr>;
               st4 = st3\<lparr>estimatedTimeRemaining :=
                           estimate (progress st3) (now - startTime st3) (estimatedTimeRemaining st3)\<rparr>
           in updateUI st4 (m\<lparr>loadingStates := AList.update tid st4 (loadingStates m)\<rparr>)))"

definition finishLoading ::
  "string \<Rightarrow> bool option \<Rightarrow> string option \<Rightarrow> loadingstatemanager comp" where
  "finishLoading tid success msg m =
     (case map_of (loadingStates m) tid of
        None \<Rightarrow> (Returned, m)
      | Some st \<Rightarrow>
          (let ok = (case success of None \<Rightarrow> True | Some b \<Rightarrow> b);
               st' = st\<lparr>progress := Finite 100,
                        message := (case msg of None \<Rightarrow> default_finish_message | Some t \<Rightarrow> t),
                        stage := (if ok then ''completed'' else ''error''),
                        finished := Some True\<rparr>
           in andThen (updateUI st')
                (\<lambda>m'. (Returned,
                        m'\<lparr>lsm_timers := lsm_timers m' @ [(if ok then 1000 else 3000, tid)]\<rparr>))
                (m\<lparr>loadingStates := AList.update tid st' (loadingStates m)\<rparr>)))"

text \<open>The callback of the timer that \<open>finishLoading\<close> sets.\<close>

definition cleanup :: "string \<Rightarrow> loadingstatemanager comp" where
  "cleanup tid m =
     (let m' = m\<lparr>loadingStates := AList.delete tid (loadingStates m)\<rparr>
      in if loadingStates m' = [] then hideLoadingContainer m' else (Returned, m'))"

definition getProgress :: "loadingstatemanager \<Rightarrow> string \<Rightarrow> double" where
  "getProgress m tid =
     (case map_of (loadingStates m) tid of None \<Rightarrow> Finite 0 | Some st \<Rightarrow> progress st)"

definition getStage :: "loadingstatemanager \<Rightarrow> string \<Rightarrow> string option" where
  "getStage m tid = (case map_of (loadingStates m) tid of None \<Rightarrow> None | Some st \<Rightarrow> Some (stage st))"

definition isLoading :: "loadingstatemanager \<Rightarrow> string option \<Rightarrow> bool" where
  "isLoading m tid =
     (case tid of
        None \<Rightarrow> loadingStates m \<noteq> []
      | Some t \<Rightarrow> (if t \<noteq> [] then map_of (loadingStates m) t \<noteq> None else loadingStates m \<noteq> []))"

definition page_found :: elements where
  "page_found = \<lparr>container = True, progressBar = True, progressPercent = True\<rparr>"

section \<open>WebSocketManager\<close>

text \<open>
  The class \<open>WebSocketManager\<close> (src/static/js/core/WebSocketManager.js, lines 6 to
  195).

  The manager and the part of the browser it talks to. Every \<open>new WebSocket\<close> adds
  a socket to \<open>sockets\<close> (a socket is known by its position there, its entry is its
  \<open>readyState\<close>); the handlers that \<open>connect\<close> attaches to a socket refer to the
  manager, not to the socket. \<open>transmitted\<close> lists what \<open>socket.send\<close> was given,
  \<open>intervals\<close> the live interval timers, \<open>reconnects_pending\<close> the number of
  reconnect timeouts set and not yet run, \<open>ws_dispatched\<close> the events dispatched on
  \<open>window\<close>. Dispatch of inbound frames to handlers is not part of this development.
\<close>

datatype ready_state = CONNECTING | OPEN | CLOSING | CLOSED

datatype 'd frame = Ping int | Data 'd

record 'd websocketmanager =
  clientId :: string
  socket :: "nat option"
  reconnectInterval :: nat
  heartbeatInterval :: nat
  heartbeatTimer :: "nat option"
  messageHandlers :: "(string \<times> nat list) list"
  isConnected :: bool
  sockets :: "ready_state list"
  transmitted :: "(nat \<times> 'd frame) list"
  intervals :: "nat list"
  timers_made :: nat
  reconnects_pending :: nat
  ws_console :: "console_entry list"
  ws_dispatched :: "string list"

definition or_default :: "nat option \<Rightarrow> nat \<Rightarrow> nat" where
  "or_default given d = (case given of None \<Rightarrow> d | Some n \<Rightarrow> (if n = 0 then d else n))"

definition new_WebSocketManager :: "string \<Rightarrow> nat option \<Rightarrow> nat option \<Rightarrow> 'd websocketmanager" where
  "new_WebSocketManager cid reconnect heartbeat =
     \<lparr>clientId = cid, socket = None, reconnectInterval = or_default reconnect 3000,
      heartbeatInterval = or_default heartbeat 30000, heartbeatTimer = None,
      messageHandlers = [], isConnected = False, sockets = [], transmitted = [],
      intervals = [], timers_made = 0, reconnects_pending = 0, ws_console = [],
      ws_dispatched = []\<rparr>"

text \<open>The \<open>readyState\<close> of a socket (a number that names no socket reads as closed).\<close>

definition readyState :: "'d websocketmanager \<Rightarrow> nat \<Rightarrow> ready_state" where
  "readyState m i = (if i < length (sockets m) then sockets m ! i else CLOSED)"

definition ws_emit :: "string \<Rightarrow> 'd websocketmanager \<Rightarrow> 'd websocketmanager" where
  "ws_emit event m = m\<lparr>ws_dispatched := ws_dispatched m @ [event]\<rparr>"

definition connect :: "'d websocketmanager comp" where
  "connect m =
     (Returned,
      m\<lparr>ws_console := ws_console m @ [Log_connecting],
        sockets := sockets m @ [CONNECTING],
        socket := Some (length (sockets m))\<rparr>)"

text \<open>
  \<open>this.isConnected && this.socket.readyState === WebSocket.OPEN\<close>: the right operand
  is evaluated only when the flag is set, and reading \<open>readyState\<close> of \<open>null\<close> throws.
\<close>

definition send :: "'d frame \<Rightarrow> 'd websocketmanager comp" where
  "send data m =
     (if isConnected m then
        (case socket m of
           None \<Rightarrow> (Threw TypeError, m)
         | Some i \<Rightarrow>
             (if readyState m i = OPEN
              then (Returned, m\<lparr>transmitted := transmitted m @ [(i, data)]\<rparr>)
              else (Returned, m\<lparr>ws_console := ws_console m @ [Warn_not_connected]\<rparr>)))
      else (Returned, m\<lparr>ws_console := ws_console m @ [Warn_not_connected]\<rparr>))"

definition stopHeartbeat :: "'d websocketmanager \<Rightarrow> 'd websocketmanager" where
  "stopHeartbeat m =
     (case heartbeatTimer m of
        None \<Rightarrow> m
      | Some h \<Rightarrow>
          (if h \<noteq> 0 then m\<lparr>intervals := removeAll h (intervals m), heartbeatTimer := None\<rparr>
           else m))"

definition startHeartbeat :: "'d websocketmanager \<Rightarrow> 'd websocketmanager" where
  "startHeartbeat m =
     (let m1 = stopHeartbeat m; h = Suc (timers_made m1)
      in m1\<lparr>timers_made := h, intervals := intervals m1 @ [h], heartbeatTimer := Some h\<rparr>)"

definition heartbeat :: "int \<Rightarrow> 'd websocketmanager comp" where
  "heartbeat now m = (if isConnected m then send (Ping now) m else (Returned, m))"

definition socket_close :: "nat \<Rightarrow> 'd websocketmanager \<Rightarrow> 'd websocketmanager" where
  "socket_close i m =
     (if i < length (sockets m) \<and> (sockets m ! i = CONNECTING \<or> sockets m ! i = OPEN)
      then m\<lparr>sockets := (sockets m)[i := CLOSING]\<rparr> else m)"

definition close :: "'d websocketmanager comp" where
  "close m =
     (let m1 = stopHeartbeat m;
          m2 = (case socket m1 of None \<Rightarrow> m1 | Some i \<Rightarrow> (socket_close i m1)\<lparr>socket := None\<rparr>)
      in (Returned, m2\<lparr>isConnected := False, messageHandlers := []\<rparr>))"

definition getState :: "'d websocketmanager \<Rightarrow> string" where
  "getState m =
     (case socket m of
        None \<Rightarrow> ''CLOSED''
      | Some i \<Rightarrow>
          (case readyState m i of
             CONNECTING \<Rightarrow> ''CONNECTING''
           | OPEN \<Rightarrow> ''OPEN''
           | CLOSING \<Rightarrow> ''CLOSING''
           | CLOSED \<Rightarrow> ''CLOSED''))"

text \<open>The handlers that \<open>connect\<close> attaches, and the callback of the reconnect timeout.\<close>

definition onopen :: "'d websocketmanager comp" where
  "onopen m =
     (Returned,
      ws_emit ''open'' (startHeartbeat (m\<lparr>ws_console := ws_console m @ [Log_opened],
                                         isConnected := True\<rparr>)))"

definition onerror :: "'d websocketmanager comp" where
  "onerror m =
     (Returned, ws_emit ''error'' (m\<lparr>ws_console := ws_console m @ [Error_socket],
                                    isConnected := False\<rparr>))"

definition onclose :: "'d websocketmanager comp" where
  "onclose m =
     (let m1 = ws_emit ''close''
                 (stopHeartbeat (m\<lparr>ws_console := ws_console m @ [Log_closed],
                                   isConnected := False\<rparr>))
      in (Returned, m1\<lparr>reconnects_pending := Suc (reconnects_pending m1)\<rparr>))"

definition reconnect :: "'d websocketmanager comp" where
  "reconnect m = connect (m\<lparr>ws_console := ws_console m @ [Log_reconnecting]\<rparr>)"

text \<open>
  What can happen to a manager: a call by the client, an event of one of its sockets,
  a timer running. \<open>occur\<close> is \<open>None\<close> when the event cannot happen in that state (a
  socket opens only while connecting, closes only once, a timer runs only when set).
  \<open>play\<close> runs a sequence of events, each in its own turn of the event loop, and
  gives the outcome of the last.
\<close>

datatype 'd ws_event =
    Call_connect
  | Call_close
  | Call_send "'d frame"
  | Socket_opens nat
  | Socket_fails nat
  | Socket_closes nat
  | Reconnect_timeout
  | Heartbeat_interval nat int

fun occur :: "'d ws_event \<Rightarrow> 'd websocketmanager \<Rightarrow> (outcome \<times> 'd websocketmanager) option" where
  "occur Call_connect m = Some (connect m)"
| "occur Call_close m = Some (close m)"
| "occur (Call_send data) m = Some (send data m)"
| "occur (Socket_opens i) m =
     (if i < length (sockets m) \<and> sockets m ! i = CONNECTING
      then Some (onopen (m\<lparr>sockets := (sockets m)[i := OPEN]\<rparr>)) else None)"
| "occur (Socket_fails i) m =
     (if i < length (sockets m) \<and> sockets m ! i \<noteq> CLOSED then Some (onerror m) else None)"
| "occur (Socket_closes i) m =
     (if i < length (sockets m) \<and> sockets m ! i \<noteq> CLOSED
      then Some (onclose (m\<lparr>sockets := (sockets m)[i := CLOSED]\<rparr>)) else None)"
| "occur Reconnect_timeout m =
     (if reconnects_pending m > 0
      then Some (reconnect (m\<lparr>reconnects_pending := reconnects_pending m - 1\<rparr>)) else None)"
| "occur (Heartbeat_interval h now) m =
     (if h \<in> set (intervals m) then Some (heartbeat now m) else None)"

fun play :: "'d ws_event list \<Rightarrow> 'd websocketmanager \<Rightarrow> (outcome \<times> 'd websocketmanager) option" where
  "play [] m = Some (Returned, m)"
| "play (e # es) m =
     (case occur e m of
        None \<Rightarrow> None
      | Some (res, m') \<Rightarrow> (if es = [] then Some (res, m') else play es m'))"

section \<open>Example runs\<close>

text \<open>
  A bus with the three subscribers \<open>Fn 0\<close>, \<open>Fn 1\<close>, \<open>Fn 2\<close> of \<open>job\<close>, in that order
  of registration, and a bus on which \<open>once\<close> has registered the throwing \<open>Fn 0\<close>.
\<close>

definition demo_bus :: "(jsval, nat) bus_run" where
  "demo_bus =
     (start_bus 0)\<lparr>bus := on ''job'' (Fn 2) (on ''job'' (Fn 1) (on ''job'' (Fn 0) (new_EventBus 0)))\<rparr>"

definition once_bus :: "(jsval, nat) bus_run" where
  "once_bus = (start_bus 0)\<lparr>bus := once ''job'' 0 (new_EventBus 0)\<rparr>"

text \<open>
  A store holding \<open>k = 5\<close> with the watchers \<open>1\<close>, \<open>0\<close>, \<open>2\<close> of \<open>k\<close> and the
  watchers \<open>2\<close>, \<open>0\<close> of the absent key \<open>gone\<close>; a sequence of
  twenty-eight operations; a store whose history is full.
\<close>

definition demo_store :: "nat sm_run" where
  "demo_store =
     \<lparr>sm = watch ''gone'' 0 (watch ''gone'' 2
              (watch ''k'' 2 (watch ''k'' 0 (watch ''k'' 1 (new_StateManager [(''k'', JNum 5)] 0))))),
      sm_calls = [], sm_console = []\<rparr>"

definition demo_ops :: "(int \<times> store_op) list" where
  "demo_ops =
     (0, Watch ''k'' 1) # map (\<lambda>n. (int n, Set ''k'' (JRef n))) [0..<26] @ [(26, Delete ''k'')]"

definition full_store :: "nat statemanager" where
  "full_store =
     (new_StateManager [] 0)
       \<lparr>history := map (\<lambda>n. \<lparr>property = ''k'', oldValue = JRef n, newValue = JRef (Suc n),
                              timestamp = int n, action = None\<rparr>) [0..<50]\<rparr>"

text \<open>An empty store with the watcher \<open>2\<close> of the key \<open>constructor\<close>.\<close>

definition inherited_store :: "nat sm_run" where
  "inherited_store =
     \<lparr>sm = watch ''constructor'' 2 (new_StateManager [] 0), sm_calls = [], sm_console = []\<rparr>"

text \<open>A manager that tracks the task \<open>t1\<close>, just started at time \<open>0\<close>.\<close>

definition demo_loading :: loadingstatemanager where
  "demo_loading = snd (startLoading ''t1'' None 0 (new_LoadingStateManager page_found))"

text \<open>
  A sequence of events of a connection manager: the client connects and closes; the
  closed socket sets the reconnect timer; the client connects again (socket 1); the
  timer runs and connects once more (socket 2, which replaces socket 1 in
  \<open>this.socket\<close>); the client closes (socket 2); socket 1 opens. The shorter sequence
  reaches the same state through two calls of \<open>connect\<close> in a row.
\<close>

definition stale_open :: "nat ws_event list" where
  "stale_open =
     [Call_connect, Call_close, Socket_closes 0, Call_connect, Reconnect_timeout, Call_close,
      Socket_opens 1]"

definition stale_open_short :: "nat ws_event list" where
  "stale_open_short = [Call_connect, Call_connect, Call_close, Socket_opens 0]"

definition demo_manager :: "nat websocketmanager" where
  "demo_manager = new_WebSocketManager ''client'' None None"

section \<open>Properties of the EventBus\<close>


lemma forEach_invariant:
  assumes step: "\<And>x s. x \<in> set xs \<Longrightarrow> Q s \<Longrightarrow> Q (snd (f x s))" and start: "Q s"
  shows "Q (snd (forEach f xs s))"
  using step start
proof (induction xs arbitrary: s)
  case Nil
  then show ?case by simp
next
  case (Cons x xs)
  obtain res s1 where fx: "f x s = (res, s1)" by (cases "f x s")
  from Cons.prems(1) [of x s] Cons.prems(2) fx have q1: "Q s1" by simp
  show ?case
  proof (cases res)
    case Returned
    have "Q (snd (forEach f xs s1))"
      by (rule Cons.IH) (simp_all add: Cons.prems(1) q1)
    with fx Returned show ?thesis by simp
  next
    case (Threw e)
    with fx q1 show ?thesis by simp
  qed
qed



section \<open>Properties of the StateManager\<close>

lemma call_watcher_calls:
  "sm_calls (snd (call_watcher env cb new old r)) = sm_calls r @ [(cb, new, old)]"
  by (simp add: call_watcher_def split: prod.splits)

lemma notify_loop_calls:
  "sm_calls (snd (forEach (\<lambda>cb. try_catch (call_watcher env cb new old)
        (\<lambda>error r'. (Returned, r'\<lparr>sm_console := sm_console r' @ [Error_watcher k error]\<rparr>))) cbs r))
   = sm_calls r @ map (\<lambda>cb. (cb, new, old)) cbs"
proof (induction cbs arbitrary: r)
  case Nil
  show ?case by simp
next
  case (Cons cb cbs)
  obtain res r1 where cw: "call_watcher env cb new old r = (res, r1)"
    by (cases "call_watcher env cb new old r")
  have c1: "sm_calls r1 = sm_calls r @ [(cb, new, old)]"
    using call_watcher_calls [of env cb new old r] cw by simp
  show ?case
  proof (cases res)
    case Returned
    with cw c1 Cons.IH [of r1] show ?thesis by (simp add: try_catch_def)
  next
    case (Threw e)
    with cw c1 Cons.IH [of "r1\<lparr>sm_console := sm_console r1 @ [Error_watcher k e]\<rparr>"]
    show ?thesis by (simp add: try_catch_def)
  qed
qed

lemma notify_calls:
  "sm_calls (snd (notify env k new old r)) = sm_calls r @ map (\<lambda>cb. (cb, new, old)) (watching (sm r) k)"
  by (cases "map_of (listeners (sm r)) k") (simp_all add: notify_def watching_def notify_loop_calls)


text \<open>What every watcher of the key preserves, \<open>notify\<close> preserves.\<close>

lemma notify_preserves:
  assumes env: "\<And>cb nv ov s. cb \<in> set (watching (sm r) k) \<Longrightarrow> P s \<Longrightarrow> P (snd (env cb nv ov s))"
    and start: "P (sm r)"
  shows "P (sm (snd (notify env k new old r)))"
proof (cases "map_of (listeners (sm r)) k")
  case None
  with start show ?thesis by (simp add: notify_def)
next
  case (Some cbs)
  then have w: "watching (sm r) k = cbs" by (simp add: watching_def)
  have body: "\<And>cb r'. cb \<in> set cbs \<Longrightarrow> P (sm r') \<Longrightarrow>
      P (sm (snd (try_catch (call_watcher env cb new old)
        (\<lambda>error r'. (Returned, r'\<lparr>sm_console := sm_console r' @ [Error_watcher k error]\<rparr>)) r')))"
  proof -
    fix cb and r' :: "'a sm_run"
    assume mem: "cb \<in> set cbs" and p: "P (sm r')"
    obtain res s1 where e: "env cb new old (sm r') = (res, s1)" by (cases "env cb new old (sm r')")
    from env [of cb "sm r'" new old] mem w p e have "P s1" by simp
    with e show "P (sm (snd (try_catch (call_watcher env cb new old)
        (\<lambda>error r'. (Returned, r'\<lparr>sm_console := sm_console r' @ [Error_watcher k error]\<rparr>)) r')))"
      by (cases res) (simp_all add: try_catch_def call_watcher_def)
  qed
  from forEach_invariant [where Q = "\<lambda>r. P (sm r)" and xs = cbs, OF body start] Some
  show ?thesis by (simp add: notify_def)
qed

lemma addHistory_ok: "history_ok s \<Longrightarrow> history_ok (addHistory e s)"
  by (auto simp: history_ok_def addHistory_def Let_def)

lemma addHistory_fifo:
  "maxHistorySize s = 50 \<Longrightarrow> length (history s) = 50 \<Longrightarrow> history (addHistory e s) = tl (history s) @ [e]"
  by (cases "history s") (auto simp: addHistory_def Let_def)

lemma set_trap_ok:
  assumes env: "\<And>cb nv ov s. history_ok s \<Longrightarrow> history_ok (snd (env cb nv ov s))"
    and start: "history_ok (sm r)"
  shows "history_ok (sm (snd (set_trap env now p v r)))"
proof (cases "strict_eq (get (sm r) p) v")
  case True
  with start show ?thesis by (simp add: set_trap_def)
next
  case False
  let ?e = "\<lparr>property = p, oldValue = get (sm r) p, newValue = v, timestamp = now, action = None\<rparr>"
  let ?s2 = "(addHistory ?e (sm r))\<lparr>state := assign p v (state (addHistory ?e (sm r)))\<rparr>"
  have "history_ok ?s2" using addHistory_ok [OF start, of ?e] by (simp add: history_ok_def)
  then have "history_ok (sm (r\<lparr>sm := ?s2\<rparr>))" by simp
  from notify_preserves [where P = history_ok, OF env this]
  show ?thesis using False by (simp add: set_trap_def Let_def)
qed

lemma deleteProperty_ok:
  assumes env: "\<And>cb nv ov s. history_ok s \<Longrightarrow> history_ok (snd (env cb nv ov s))"
    and start: "history_ok (sm r)"
  shows "history_ok (sm (snd (deleteProperty env now p r)))"
proof -
  let ?e = "\<lparr>property = p, oldValue = get (sm r) p, newValue = JUndefined, timestamp = now,
             action = Some ''delete''\<rparr>"
  let ?s2 = "(addHistory ?e (sm r))\<lparr>state := AList.delete p (state (addHistory ?e (sm r)))\<rparr>"
  have "history_ok ?s2" using addHistory_ok [OF start, of ?e] by (simp add: history_ok_def)
  then have "history_ok (sm (r\<lparr>sm := ?s2\<rparr>))" by simp
  from notify_preserves [where P = history_ok, OF env this]
  show ?thesis by (simp add: deleteProperty_def Let_def)
qed

lemma exec_ok:
  assumes env: "\<And>cb nv ov s. history_ok s \<Longrightarrow> history_ok (snd (env cb nv ov s))"
    and start: "history_ok (sm r)"
  shows "history_ok (sm (snd (exec env op r)))"
proof -
  obtain now o' where op: "op = (now, o')" by (cases op)
  show ?thesis
  proof (cases o')
    case (Set p v)
    with op set_trap_ok [OF env start] show ?thesis by (simp add: set'_def)
  next
    case (SetBatch kvs)
    have "history_ok (sm (snd (forEach (\<lambda>kv. set_trap env now (fst kv) (snd kv)) kvs r)))"
      by (rule forEach_invariant [where Q = "\<lambda>r. history_ok (sm r)"]) (simp_all add: set_trap_ok env start)
    with op SetBatch show ?thesis by (simp add: set'_def)
  next
    case (Delete p)
    with op deleteProperty_ok [OF env start] show ?thesis by simp
  next
    case (Watch k cb)
    with op start show ?thesis
      by (simp add: watch_def history_ok_def split: option.splits)
  next
    case (Unwatch k cb)
    with op start show ?thesis
      by (simp add: unwatch_def history_ok_def split: option.splits)
  qed
qed

section \<open>Claims about the EventBus\<close>




text \<open>After that dispatch the list of subscribers has changed, and the exception was logged.\<close>

lemma demo_emit_changes_subscribers:
  "subscribed (bus (snd (emit demo_subscribers ''job'' [JStr ''x''] demo_bus))) ''job''
     = [Fn 0, Fn 1, Fn 3]
   \<and> bus_console (snd (emit demo_subscribers ''job'' [JStr ''x''] demo_bus))
        = [Error_callback ''job'' (Thrown (JStr ''boom''))]"
  by (simp add: demo_bus_def start_bus_def new_EventBus_def on_def off_def subscribed_def emit_def
      try_catch_def call_fn_def demo_subscribers_def)

text \<open>
  C1. A callback registered with \<open>once\<close> is to run exactly once, also when it throws.
  The wrapper unsubscribes itself only after the callback has returned: when the
  callback \<open>Fn 0\<close> throws, the wrapper stays subscribed after the first \<open>emit\<close>, and a
  second \<open>emit\<close> calls \<open>Fn 0\<close> a second time.
\<close>

theorem once_throwing_callback_fires_again:
  "length (filter (\<lambda>c. fst c = Fn 0)
      (bus_calls (snd (emit demo_subscribers ''job'' []
         (snd (emit demo_subscribers ''job'' [] once_bus)))))) = 2
   \<and> subscribed (bus (snd (emit demo_subscribers ''job'' [] once_bus))) ''job''
        = [OnceWrapper 0 ''job'' 0]"
  by (simp add: once_bus_def start_bus_def new_EventBus_def once_def on_def off_def subscribed_def
      emit_def try_catch_def andThen_def call_fn_def demo_subscribers_def)

text \<open>A callback that returns (here \<open>Fn 5\<close>) is called by the first \<open>emit\<close> only.\<close>

lemma once_returning_callback_is_removed:
  "bus_calls (snd (emit demo_subscribers ''job'' []
      (snd (emit demo_subscribers ''job'' []
         ((start_bus 0)\<lparr>bus := once ''job'' 5 (new_EventBus 0)\<rparr>)))))
     = [(OnceWrapper 0 ''job'' 5, []), (Fn 5, [])]"
  by (simp add: start_bus_def new_EventBus_def once_def on_def off_def subscribed_def
      emit_def try_catch_def andThen_def call_fn_def demo_subscribers_def)

section \<open>Claims about the StateManager\<close>

text \<open>
  C4. When the value read at \<open>k\<close> is strictly equal to \<open>v\<close>, \<open>set(k, v)\<close> changes
  nothing: the state, the history, the listeners, the calls made to watchers and the
  console are as before. So is doing it twice in a row, and so is the batch form
  \<open>set({k: v})\<close>.
\<close>

theorem set_same_value_is_noop:
  assumes same: "strict_eq (get (sm r) k) v"
  shows "set' env now (Key k) v r = (Returned, r)
     \<and> andThen (set' env now (Key k) v) (set' env later (Key k) v) r = (Returned, r)
     \<and> set' env now (Batch [(k, v)]) u r = (Returned, r)"
  using same by (simp add: set'_def set_trap_def andThen_def)

lemma demo_store_state: "state (sm demo_store) = [(''k'', JNum 5)]"
  by (simp add: demo_store_def new_StateManager_def watch_def)

lemma demo_store_watching:
  "watching (sm demo_store) ''k'' = [1, 0, 2]" "watching (sm demo_store) ''gone'' = [2, 0]"
  by (simp_all add: demo_store_def new_StateManager_def watch_def watching_def)

theorem set_same_value_is_noop_witness:
  "strict_eq (get (sm demo_store) ''k'') (JNum 5)
   \<and> set' demo_watchers 1 (Key ''k'') (JNum 5) demo_store = (Returned, demo_store)
   \<and> andThen (set' demo_watchers 1 (Key ''k'') (JNum 5)) (set' demo_watchers 2 (Key ''k'') (JNum 5))
        demo_store = (Returned, demo_store)"
proof -
  have same: "strict_eq (get (sm demo_store) ''k'') (JNum 5)"
    by (simp add: get_def demo_store_state)
  from set_same_value_is_noop [OF same, of demo_watchers 1 2 JUndefined] same
  show ?thesis by simp
qed

text \<open>
  The two zeros are strictly equal, so writing \<open>-0\<close> over \<open>+0\<close> is a no-op as well;
  \<open>NaN\<close> is not strictly equal to itself, so writing \<open>NaN\<close> over \<open>NaN\<close> is recorded.
\<close>

lemma set_zero_and_nan:
  "set' demo_watchers 1 (Key ''z'') JNegZero (start_sm [(''z'', JNum 0)] 0)
     = (Returned, start_sm [(''z'', JNum 0)] 0)
   \<and> length (history (sm (snd (set' demo_watchers 1 (Key ''n'') JNaN (start_sm [(''n'', JNaN)] 0)))))
     = 1"
  by (simp add: set'_def set_trap_def get_def start_sm_def new_StateManager_def notify_def
      addHistory_def)

text \<open>
  C7. Starting from a new manager, after any sequence of \<open>set\<close>, batch \<open>set\<close>,
  deletions, \<open>watch\<close> and \<open>unwatch\<close> the history holds at most 50 records, provided
  the watchers themselves keep it so (which they do when they go through the same
  operations). Recording into a history of 50 drops the first record and keeps the
  others, in order, before the new one.
\<close>

theorem history_bounded_fifo:
  assumes env: "\<And>cb nv ov s. history_ok s \<Longrightarrow> history_ok (snd (env cb nv ov s))"
  shows "length (history (sm (snd (run env ops (start_sm initialState w))))) \<le> 50
    \<and> (maxHistorySize s = 50 \<and> length (history s) = 50 \<longrightarrow>
          history (addHistory e s) = tl (history s) @ [e])"
proof -
  have "history_ok (sm (start_sm initialState w))"
    by (simp add: start_sm_def new_StateManager_def history_ok_def)
  then have "history_ok (sm (snd (run env ops (start_sm initialState w))))"
    unfolding run_def
    by (rule forEach_invariant [where Q = "\<lambda>r. history_ok (sm r)", rotated]) (simp add: exec_ok env)
  then show ?thesis by (simp add: history_ok_def addHistory_fifo)
qed

text \<open>The example watchers keep the bound: watcher \<open>1\<close> writes through \<open>set\<close>.\<close>

lemma demo_watchers_ok: "history_ok s \<Longrightarrow> history_ok (snd (demo_watchers cb nv ov s))"
proof -
  assume ok: "history_ok s"
  have nested: "history_ok (sm (snd (set_trap (\<lambda>c n ov t. (Returned, t)) 0 ''seen'' nv
      \<lparr>sm = s, sm_calls = [], sm_console = []\<rparr>)))"
    by (rule set_trap_ok) (simp_all add: ok)
  show ?thesis
    using ok nested by (simp add: demo_watchers_def set'_def history_ok_def)
qed

theorem history_bounded_fifo_witness:
  "length (history (sm (snd (run demo_watchers demo_ops (start_sm [] 0))))) \<le> 50
   \<and> maxHistorySize full_store = 50 \<and> length (history full_store) = 50
   \<and> history (addHistory
        \<lparr>property = ''k'', oldValue = JRef 50, newValue = JNull, timestamp = 50, action = None\<rparr>
        full_store)
      = tl (history full_store)
        @ [\<lparr>property = ''k'', oldValue = JRef 50, newValue = JNull, timestamp = 50, action = None\<rparr>]"
  using history_bounded_fifo [of demo_watchers demo_ops "[]" 0 full_store
      "\<lparr>property = ''k'', oldValue = JRef 50, newValue = JNull, timestamp = 50, action = None\<rparr>",
      OF demo_watchers_ok]
  by (simp add: full_store_def new_StateManager_def)

text \<open>
  The run \<open>demo_ops\<close> records 54 mutations (each write of \<open>k\<close> makes watcher \<open>1\<close>
  write \<open>seen\<close>): the history ends with 50 records, the first four gone.
\<close>

lemma demo_ops_evicts:
  "length (history (sm (snd (run demo_watchers demo_ops (start_sm [] 0))))) = 50
   \<and> hd (history (sm (snd (run demo_watchers demo_ops (start_sm [] 0)))))
      = \<lparr>property = ''k'', oldValue = JRef 1, newValue = JRef 2, timestamp = 2, action = None\<rparr>"
  by code_simp



text \<open>
  C10, as amended. Deleting a key that reads as \<open>undefined\<close> (a key the store does not
  hold and \<open>Object.prototype\<close> does not define, or a key held with the value
  \<open>undefined\<close>) is not a no-op. The deletion is \<open>notify(k, undefined, undefined)\<close> run
  on the manager in which the record \<open>e k now\<close> (action \<open>delete\<close>, both values
  \<open>undefined\<close>) has been added to the history; every watcher of \<open>k\<close> is called with
  \<open>(undefined, undefined)\<close>; and when the watchers of \<open>k\<close> leave the history alone,
  the history afterwards is the old one with that record appended (less its first
  record when it was full).
\<close>

theorem delete_of_undefined_key_is_recorded:
  fixes r :: "'w sm_run"
  defines "e \<equiv> \<lambda>k now. \<lparr>property = k, oldValue = JUndefined, newValue = JUndefined,
                          timestamp = now, action = Some ''delete''\<rparr>"
  assumes undef: "get (sm r) k = JUndefined"
  shows "deleteProperty env now k r
           = notify env k JUndefined JUndefined
               (r\<lparr>sm := (addHistory (e k now) (sm r))\<lparr>state := AList.delete k (state (sm r))\<rparr>\<rparr>)
     \<and> sm_calls (snd (deleteProperty env now k r))
         = sm_calls r @ map (\<lambda>cb. (cb, JUndefined, JUndefined)) (watching (sm r) k)
     \<and> ((\<forall>cb \<in> set (watching (sm r) k). \<forall>nv ov s. history (snd (env cb nv ov s)) = history s) \<longrightarrow>
          history (sm (snd (deleteProperty env now k r)))
            = (if length (history (sm r)) < maxHistorySize (sm r)
               then history (sm r) @ [e k now]
               else tl (history (sm r) @ [e k now])))"
proof -
  let ?s2 = "(addHistory (e k now) (sm r))\<lparr>state := AList.delete k (state (sm r))\<rparr>"
  let ?H = "history ?s2"
  have eq: "deleteProperty env now k r = notify env k JUndefined JUndefined (r\<lparr>sm := ?s2\<rparr>)"
    by (simp add: deleteProperty_def Let_def undef e_def addHistory_def)
  have w: "watching ?s2 k = watching (sm r) k"
    by (simp add: watching_def addHistory_def Let_def)
  have calls: "sm_calls (snd (deleteProperty env now k r))
         = sm_calls r @ map (\<lambda>cb. (cb, JUndefined, JUndefined)) (watching (sm r) k)"
    unfolding eq by (simp add: notify_calls w)
  have hist: "history (sm (snd (deleteProperty env now k r))) = ?H"
    if frame: "\<forall>cb \<in> set (watching (sm r) k). \<forall>nv ov s. history (snd (env cb nv ov s)) = history s"
  proof -
    have "history (sm (snd (notify env k JUndefined JUndefined (r\<lparr>sm := ?s2\<rparr>)))) = ?H"
      by (rule notify_preserves [where P = "\<lambda>s. history s = ?H"]) (simp_all add: frame w)
    with eq show ?thesis by simp
  qed
  have H: "?H = (if length (history (sm r)) < maxHistorySize (sm r)
               then history (sm r) @ [e k now]
               else tl (history (sm r) @ [e k now]))"
    by (auto simp: addHistory_def Let_def)
  from eq calls hist H show ?thesis by simp
qed

theorem delete_of_undefined_key_is_recorded_witness:
  "get (sm demo_store) ''gone'' = JUndefined
   \<and> sm_calls (snd (deleteProperty demo_watchers 7 ''gone'' demo_store))
       = [(2, JUndefined, JUndefined), (0, JUndefined, JUndefined)]
   \<and> history (sm (snd (deleteProperty demo_watchers 7 ''gone'' demo_store)))
       = [\<lparr>property = ''gone'', oldValue = JUndefined, newValue = JUndefined, timestamp = 7,
           action = Some ''delete''\<rparr>]"
proof -
  have undef: "get (sm demo_store) ''gone'' = JUndefined"
    by (simp add: get_def demo_store_state Object_prototype_def)
  have frame: "\<forall>cb \<in> set (watching (sm demo_store) ''gone'').
      \<forall>nv ov s. history (snd (demo_watchers cb nv ov s)) = history (s :: nat statemanager)"
    by (simp add: demo_store_watching demo_watchers_def)
  have start: "sm_calls demo_store = []" "history (sm demo_store) = []"
      "maxHistorySize (sm demo_store) = 50"
    by (simp_all add: demo_store_def new_StateManager_def watch_def)
  from delete_of_undefined_key_is_recorded [OF undef, of demo_watchers 7, THEN conjunct2]
    undef frame start
  show ?thesis by (simp add: demo_store_watching)
qed

text \<open>
  C10, as stated, fails for a key that the store does not hold but \<open>Object.prototype\<close>
  defines: the trap reads the old value through the prototype chain. Deleting
  \<open>constructor\<close> from an empty store records the old value \<open>Object\<close>, not
  \<open>undefined\<close>, and calls the watcher with \<open>(undefined, Object)\<close>.
\<close>

theorem delete_of_inherited_key_counterexample:
  "map_of (state (sm inherited_store)) ''constructor'' = None
   \<and> sm_calls (snd (deleteProperty demo_watchers 7 ''constructor'' inherited_store))
       = [(2, JUndefined, JBuiltin ''Object'')]
   \<and> history (sm (snd (deleteProperty demo_watchers 7 ''constructor'' inherited_store)))
       = [\<lparr>property = ''constructor'', oldValue = JBuiltin ''Object'', newValue = JUndefined,
           timestamp = 7, action = Some ''delete''\<rparr>]"
  by (simp add: inherited_store_def new_StateManager_def watch_def deleteProperty_def get_def
      Object_prototype_def addHistory_def notify_def try_catch_def call_watcher_def
      demo_watchers_def Let_def)

section \<open>Properties of the LoadingStateManager\<close>

text \<open>
  Rounding to a double, for a positive number between two powers of two: \<open>x\<close> is
  divided by the spacing of the doubles around it, rounded to an integer and
  multiplied back.
\<close>

lemma floor_log2:
  assumes "0 < x" "2 powr (of_int e) \<le> x" "x < 2 powr (of_int e + 1)"
  shows "\<lfloor>log 2 x\<rfloor> = e"
proof -
  have "of_int e \<le> log 2 x" using assms by (simp add: le_log_iff)
  moreover have "log 2 x < of_int e + 1" using assms by (simp add: log_less_iff)
  ultimately show ?thesis by (simp add: floor_eq_iff)
qed

lemma binary64_normal:
  fixes x :: real
  assumes pos: "0 < x" and lo: "2 powr (of_int e) \<le> x" and hi: "x < 2 powr (of_int e + 1)"
    and e: "- 1022 \<le> e"
    and n: "round_ties_even (x / 2 powr (of_int e - 52)) = n"
    and fin: "of_int n * 2 powr (of_int e - 52) < (2::real) powr 1024"
  shows "binary64 x = Finite (of_int n * 2 powr (of_int e - 52))"
proof -
  have fl: "\<lfloor>log 2 x\<rfloor> = e" by (rule floor_log2 [OF pos lo hi])
  have mx: "max e (- 1022) = e" using e by simp
  have ab: "\<bar>x\<bar> = x" "sgn x = 1" "x \<noteq> 0" using pos by simp_all
  have "binary64 x =
      (let q = 2 powr (of_int e - 52); y = of_int (round_ties_even (x / q)) * q
       in if y \<ge> 2 powr 1024 then (if x > 0 then Infinity else Minus_Infinity)
          else Finite (sgn x * y))"
    by (simp only: binary64_def ab fl mx Let_def if_False)
  also have "\<dots> = Finite (of_int n * 2 powr (of_int e - 52))"
    using fin by (simp only: Let_def n ab not_le [symmetric] if_False mult_1)
  finally show ?thesis .
qed

text \<open>One tenth is not a double; its nearest double lies above it.\<close>

lemma binary64_tenth: "binary64 (1 / 10) = Finite (3602879701896397 / 36028797018963968)"
proof -
  have "binary64 (1 / 10) = Finite (of_int 7205759403792794 * 2 powr (of_int (- 4) - 52))"
  proof (rule binary64_normal)
    show "round_ties_even (1 / 10 / 2 powr (real_of_int (- 4) - 52)) = 7205759403792794"
      by (simp add: powr_minus powr_numeral round_ties_even_def Let_def floor_eq_iff)
    show "real_of_int 7205759403792794 * 2 powr (real_of_int (- 4) - 52) < 2 powr 1024"
      by (simp add: powr_minus powr_numeral)
  qed (simp_all add: powr_minus powr_numeral)
  then show ?thesis by (simp add: powr_minus powr_numeral)
qed

text \<open>
  A progress of 5 after 1500 ms. In exact arithmetic the estimate is 28500 ms, shown as
  29 s; in doubles the rate is rounded, the estimate is 28499.999999999996 ms and
  \<open>Math.round\<close> of the seconds is 28.
\<close>

lemma binary64_rate: "binary64 (5 / 1500) = Finite (7686143364045647 / 2305843009213693952)"
proof -
  have "binary64 (5 / 1500) = Finite (of_int 7686143364045647 * 2 powr (of_int (- 9) - 52))"
  proof (rule binary64_normal)
    show "round_ties_even (5 / 1500 / 2 powr (real_of_int (- 9) - 52)) = 7686143364045647"
      by (simp add: powr_minus powr_numeral round_ties_even_def Let_def floor_eq_iff)
    show "real_of_int 7686143364045647 * 2 powr (real_of_int (- 9) - 52) < 2 powr 1024"
      by (simp add: powr_minus powr_numeral)
  qed (simp_all add: powr_minus powr_numeral)
  then show ?thesis by (simp add: powr_minus powr_numeral)
qed

lemma binary64_95: "binary64 95 = Finite 95"
proof -
  have "binary64 95 = Finite (of_int 6685030696878080 * 2 powr (of_int 6 - 52))"
  proof (rule binary64_normal)
    show "round_ties_even (95 / 2 powr (real_of_int 6 - 52)) = 6685030696878080"
      by (simp add: powr_minus powr_numeral round_ties_even_def Let_def floor_eq_iff)
    show "real_of_int 6685030696878080 * 2 powr (real_of_int 6 - 52) < 2 powr 1024"
      by (simp add: powr_minus powr_numeral)
  qed (simp_all add: powr_minus powr_numeral)
  then show ?thesis by (simp add: powr_minus powr_numeral)
qed

lemma binary64_eta:
  "binary64 (95 / (7686143364045647 / 2305843009213693952))
     = Finite (7834020347903999 / 274877906944)"
proof -
  have "binary64 (95 / (7686143364045647 / 2305843009213693952))
      = Finite (of_int 7834020347903999 * 2 powr (of_int 14 - 52))"
  proof (rule binary64_normal)
    show "round_ties_even (95 / (7686143364045647 / 2305843009213693952)
        / 2 powr (real_of_int 14 - 52)) = 7834020347903999"
      by (simp add: powr_minus powr_numeral round_ties_even_def Let_def floor_eq_iff)
    show "real_of_int 7834020347903999 * 2 powr (real_of_int 14 - 52) < 2 powr 1024"
      by (simp add: powr_minus powr_numeral)
  qed (simp_all add: powr_minus powr_numeral)
  then show ?thesis by (simp add: powr_minus powr_numeral)
qed

lemma binary64_seconds:
  "binary64 (7834020347903999 / 274877906944 / 1000)
     = Finite (8022036836253695 / 281474976710656)"
proof -
  have "binary64 (7834020347903999 / 274877906944 / 1000)
      = Finite (of_int 8022036836253695 * 2 powr (of_int 4 - 52))"
  proof (rule binary64_normal)
    show "round_ties_even (7834020347903999 / 274877906944 / 1000
        / 2 powr (real_of_int 4 - 52)) = 8022036836253695"
      by (simp add: powr_minus powr_numeral round_ties_even_def Let_def floor_eq_iff)
    show "real_of_int 8022036836253695 * 2 powr (real_of_int 4 - 52) < 2 powr 1024"
      by (simp add: powr_minus powr_numeral)
  qed (simp_all add: powr_minus powr_numeral)
  then show ?thesis by (simp add: powr_minus powr_numeral)
qed

lemma estimate_in_doubles:
  "estimate (Finite 5) 1500 None = Some (Finite (7834020347903999 / 274877906944))
   \<and> Math_round (double_div (Finite (7834020347903999 / 274877906944)) (Finite 1000)) = Finite 28"
proof -
  have rate: "double_div (Finite 5) (Finite (of_int 1500)) = Finite (7686143364045647 / 2305843009213693952)"
    using binary64_rate by simp
  have sub: "double_sub (Finite 100) (Finite 5) = Finite 95"
    using binary64_95 by simp
  have eta: "double_div (Finite 95) (Finite (7686143364045647 / 2305843009213693952))
      = Finite (7834020347903999 / 274877906944)"
    using binary64_eta by simp
  have sec: "double_div (Finite (7834020347903999 / 274877906944)) (Finite 1000)
      = Finite (8022036836253695 / 281474976710656)"
    using binary64_seconds by simp
  have est: "estimate (Finite 5) 1500 None = Some (Finite (7834020347903999 / 274877906944))"
    unfolding estimate_def Let_def rate sub eta by simp
  have rnd: "Math_round (Finite (8022036836253695 / 281474976710656)) = Finite 28"
    by (simp add: floor_eq_iff)
  from est sec rnd show ?thesis by simp
qed



lemma updateUI_frame:
  "loadingStates (snd (updateUI st m)) = loadingStates m
   \<and> progressElements (snd (updateUI st m)) = progressElements m
   \<and> lsm_timers (snd (updateUI st m)) = lsm_timers m"
  by (simp add: updateUI_def updateMessage_def updateStageIndicator_def andThen_def Let_def
      split: option.splits)

lemma updateUI_returns: "progressElements m \<noteq> None \<Longrightarrow> fst (updateUI st m) = Returned"
  by (auto simp: updateUI_def updateMessage_def updateStageIndicator_def andThen_def Let_def
      split: option.splits)

lemma showLoadingContainer_frame:
  "loadingStates (snd (showLoadingContainer m)) = loadingStates m
   \<and> progressElements (snd (showLoadingContainer m)) = progressElements m"
  by (simp add: showLoadingContainer_def split: option.splits)

lemma showLoadingContainer_returns:
  "progressElements m \<noteq> None \<Longrightarrow> fst (showLoadingContainer m) = Returned"
  by (auto simp: showLoadingContainer_def split: option.splits)

lemma finishLoading_tracked:
  assumes tracked: "map_of (loadingStates m) tid = Some st"
  shows "map_of (loadingStates (snd (finishLoading tid success msg m))) tid
     = Some (st\<lparr>progress := Finite 100,
                message := (case msg of None \<Rightarrow> default_finish_message | Some t \<Rightarrow> t),
                stage := (if (case success of None \<Rightarrow> True | Some b \<Rightarrow> b) then ''completed'' else ''error''),
                finished := Some True\<rparr>)"
proof -
  let ?st = "st\<lparr>progress := Finite 100,
                message := (case msg of None \<Rightarrow> default_finish_message | Some t \<Rightarrow> t),
                stage := (if (case success of None \<Rightarrow> True | Some b \<Rightarrow> b) then ''completed'' else ''error''),
                finished := Some True\<rparr>"
  let ?m1 = "m\<lparr>loadingStates := AList.update tid ?st (loadingStates m)\<rparr>"
  obtain res m2 where ui: "updateUI ?st ?m1 = (res, m2)" by (cases "updateUI ?st ?m1")
  from updateUI_frame [of ?st ?m1] ui have ls: "loadingStates m2 = AList.update tid ?st (loadingStates m)"
    by simp
  show ?thesis using tracked ui ls
    by (cases res) (simp_all add: finishLoading_def Let_def andThen_def update_conv')
qed

lemma finishLoading_returns:
  assumes "progressElements m \<noteq> None"
  shows "fst (finishLoading tid success msg m) = Returned"
proof (cases "map_of (loadingStates m) tid")
  case None
  then show ?thesis by (simp add: finishLoading_def)
next
  case (Some st)
  let ?st = "st\<lparr>progress := Finite 100,
                message := (case msg of None \<Rightarrow> default_finish_message | Some t \<Rightarrow> t),
                stage := (if (case success of None \<Rightarrow> True | Some b \<Rightarrow> b) then ''completed'' else ''error''),
                finished := Some True\<rparr>"
  let ?m1 = "m\<lparr>loadingStates := AList.update tid ?st (loadingStates m)\<rparr>"
  have "fst (updateUI ?st ?m1) = Returned" by (rule updateUI_returns) (simp add: assms)
  then show ?thesis using Some
    by (cases "updateUI ?st ?m1") (simp add: finishLoading_def Let_def andThen_def)
qed

lemma startLoading_tracked:
  "map_of (loadingStates (snd (startLoading tid msg now m))) tid \<noteq> None
   \<and> progressElements (snd (startLoading tid msg now m)) = progressElements m"
proof -
  let ?st = "\<lparr>taskId = tid,
                message = (case msg of None \<Rightarrow> default_loading_message | Some t \<Rightarrow> t),
                progress = Finite 0, stage = ''initializing'', startTime = now,
                estimatedTimeRemaining = None, finished = None\<rparr>"
  let ?m1 = "m\<lparr>loadingStates := AList.update tid ?st (loadingStates m)\<rparr>"
  obtain res m2 where ui: "updateUI ?st ?m1 = (res, m2)" by (cases "updateUI ?st ?m1")
  from updateUI_frame [of ?st ?m1] ui
  have ls: "loadingStates m2 = AList.update tid ?st (loadingStates m)"
    and pe: "progressElements m2 = progressElements m" by simp_all
  show ?thesis using ui ls pe showLoadingContainer_frame [of m2]
    by (cases res) (simp_all add: startLoading_def Let_def andThen_def update_conv')
qed

lemma startLoading_returns:
  assumes "progressElements m \<noteq> None"
  shows "fst (startLoading tid msg now m) = Returned"
proof -
  let ?st = "\<lparr>taskId = tid,
                message = (case msg of None \<Rightarrow> default_loading_message | Some t \<Rightarrow> t),
                progress = Finite 0, stage = ''initializing'', startTime = now,
                estimatedTimeRemaining = None, finished = None\<rparr>"
  let ?m1 = "m\<lparr>loadingStates := AList.update tid ?st (loadingStates m)\<rparr>"
  obtain res m2 where ui: "updateUI ?st ?m1 = (res, m2)" by (cases "updateUI ?st ?m1")
  from updateUI_returns [of ?m1 ?st] assms ui have r: "res = Returned" by simp
  from updateUI_frame [of ?st ?m1] ui assms have "progressElements m2 \<noteq> None" by simp
  from showLoadingContainer_returns [OF this] ui r show ?thesis
    by (simp add: startLoading_def Let_def andThen_def)
qed

text \<open>What \<open>updateProgress\<close> stores for a tracked task.\<close>

lemma updateProgress_tracked:
  assumes tracked: "map_of (loadingStates m) tid = Some st"
  shows "\<exists>st'. map_of (loadingStates (snd (updateProgress tid p msg stg now m))) tid = Some st'
     \<and> message st' = (case msg of None \<Rightarrow> message st | Some t \<Rightarrow> if t \<noteq> [] then t else message st)
     \<and> stage st' = (case stg of None \<Rightarrow> ''processing'' | Some g \<Rightarrow> g)
     \<and> progress st' = Math_min (Finite 100) (Math_max (Finite 0) p)"
  using tracked updateUI_frame
  by (auto simp: updateProgress_def Let_def update_conv' split: option.splits)

lemma updateProgress_frame:
  "progressElements (snd (updateProgress tid p msg stg now m)) = progressElements m"
  using updateUI_frame
  by (auto simp: updateProgress_def Let_def split: option.splits)

lemma updateProgress_returns:
  "progressElements m \<noteq> None \<Longrightarrow> fst (updateProgress tid p msg stg now m) = Returned"
  by (auto simp: updateProgress_def Let_def updateUI_returns split: option.splits)


section \<open>Claims about the LoadingStateManager\<close>

lemma andThen_returned: "fst (f s) = Returned \<Longrightarrow> andThen f g s = g (snd (f s))"
  by (cases "f s") (simp add: andThen_def)

text \<open>
  C8. For a tracked task, after \<open>finishLoading(taskId, success, message)\<close> the state
  of the task has progress 100, stage \<open>completed\<close> when \<open>success\<close> holds (or is left
  out) and \<open>error\<close> otherwise, and \<open>finished = true\<close>; the call returns normally
  unless the manager was destroyed. In particular \<open>startLoading("t1")\<close>,
  \<open>updateProgress("t1", 50, "half", "transcribing")\<close>, \<open>finishLoading("t1", true)\<close> on a
  new manager return normally and leave \<open>getProgress("t1") = 100\<close> and
  \<open>getStage("t1") = "completed"\<close>, whatever the page holds and whatever the clock
  says. The timer that removes the task is only set by the call, not run.
\<close>

theorem finishLoading_final_state:
  assumes tracked: "map_of (loadingStates m) tid = Some st"
  shows "getProgress (snd (finishLoading tid success msg m)) tid = Finite 100
     \<and> getStage (snd (finishLoading tid success msg m)) tid
         = Some (if (case success of None \<Rightarrow> True | Some b \<Rightarrow> b) then ''completed'' else ''error'')
     \<and> map_option finished (map_of (loadingStates (snd (finishLoading tid success msg m))) tid)
         = Some (Some True)
     \<and> (progressElements m \<noteq> None \<longrightarrow> fst (finishLoading tid success msg m) = Returned)
     \<and> fst (andThen (startLoading ''t1'' None t0)
               (andThen (updateProgress ''t1'' (Finite 50) (Some ''half'') (Some ''transcribing'') t1)
                  (finishLoading ''t1'' (Some True) None))
               (new_LoadingStateManager found)) = Returned
     \<and> getProgress (snd (andThen (startLoading ''t1'' None t0)
               (andThen (updateProgress ''t1'' (Finite 50) (Some ''half'') (Some ''transcribing'') t1)
                  (finishLoading ''t1'' (Some True) None))
               (new_LoadingStateManager found))) ''t1'' = Finite 100
     \<and> getStage (snd (andThen (startLoading ''t1'' None t0)
               (andThen (updateProgress ''t1'' (Finite 50) (Some ''half'') (Some ''transcribing'') t1)
                  (finishLoading ''t1'' (Some True) None))
               (new_LoadingStateManager found))) ''t1'' = Some ''completed''"
proof -
  have general: "getProgress (snd (finishLoading tid' success' msg' m')) tid' = Finite 100
     \<and> getStage (snd (finishLoading tid' success' msg' m')) tid'
         = Some (if (case success' of None \<Rightarrow> True | Some b \<Rightarrow> b) then ''completed'' else ''error'')
     \<and> map_option finished (map_of (loadingStates (snd (finishLoading tid' success' msg' m'))) tid')
         = Some (Some True)"
    if "map_of (loadingStates m') tid' = Some st'" for tid' success' msg' m' st'
    using finishLoading_tracked [OF that, of success' msg']
    by (simp add: getProgress_def getStage_def)
  let ?m0 = "new_LoadingStateManager found"
  let ?m1 = "snd (startLoading ''t1'' None t0 ?m0)"
  let ?m2 = "snd (updateProgress ''t1'' (Finite 50) (Some ''half'') (Some ''transcribing'') t1 ?m1)"
  have pe0: "progressElements ?m0 \<noteq> None" by (simp add: new_LoadingStateManager_def)
  have r1: "fst (startLoading ''t1'' None t0 ?m0) = Returned" by (rule startLoading_returns [OF pe0])
  have pe1: "progressElements ?m1 \<noteq> None" using startLoading_tracked [of "''t1''" None t0 ?m0] pe0 by simp
  obtain st1 where t1: "map_of (loadingStates ?m1) ''t1'' = Some st1"
    using startLoading_tracked [of "''t1''" None t0 ?m0] by auto
  have r2: "fst (updateProgress ''t1'' (Finite 50) (Some ''half'') (Some ''transcribing'') t1 ?m1) = Returned"
    by (rule updateProgress_returns [OF pe1])
  have pe2: "progressElements ?m2 \<noteq> None" using updateProgress_frame pe1 by simp
  obtain st2 where t2: "map_of (loadingStates ?m2) ''t1'' = Some st2"
    using updateProgress_tracked [OF t1] by blast
  have run: "andThen (startLoading ''t1'' None t0)
               (andThen (updateProgress ''t1'' (Finite 50) (Some ''half'') (Some ''transcribing'') t1)
                  (finishLoading ''t1'' (Some True) None)) ?m0
             = finishLoading ''t1'' (Some True) None ?m2"
    by (simp add: andThen_returned r1 r2)
  show ?thesis
    unfolding run
    using general [OF tracked] general [OF t2, of "Some True" None]
      finishLoading_returns [of m tid success msg] finishLoading_returns [OF pe2]
    by simp
qed

lemma demo_loading_t1:
  "map_of (loadingStates demo_loading) ''t1''
     = Some \<lparr>taskId = ''t1'', message = default_loading_message, progress = Finite 0,
             stage = ''initializing'', startTime = 0, estimatedTimeRemaining = None, finished = None\<rparr>"
  "progressElements demo_loading = Some page_found"
  by (simp_all add: demo_loading_def startLoading_def new_LoadingStateManager_def page_found_def
      updateUI_def updateMessage_def updateStageIndicator_def showLoadingContainer_def andThen_def)

theorem finishLoading_final_state_witness:
  "map_of (loadingStates demo_loading) ''t1''
     = Some \<lparr>taskId = ''t1'', message = default_loading_message, progress = Finite 0,
             stage = ''initializing'', startTime = 0, estimatedTimeRemaining = None, finished = None\<rparr>
   \<and> progressElements demo_loading \<noteq> None
   \<and> getProgress (snd (finishLoading ''t1'' (Some False) (Some ''boom'') demo_loading)) ''t1''
       = Finite 100
   \<and> getStage (snd (finishLoading ''t1'' (Some False) (Some ''boom'') demo_loading)) ''t1'' = Some ''error''
   \<and> fst (finishLoading ''t1'' (Some False) (Some ''boom'') demo_loading) = Returned"
  using finishLoading_final_state [OF demo_loading_t1(1), of "Some False" "Some ''boom''"] demo_loading_t1
  by simp

text \<open>
  C2, as amended. For a tracked task, \<open>updateProgress(taskId, progress)\<close> without
  message and stage leaves the stored message unchanged and sets the stored stage to
  \<open>processing\<close>, the default of the parameter. In general the message is replaced
  only by a non-empty message, while the stage is always overwritten, with the stage
  given or with the default.
\<close>

theorem updateProgress_keeps_message_sets_stage:
  assumes tracked: "map_of (loadingStates m) tid = Some st"
  shows "map_option message (map_of (loadingStates (snd (updateProgress tid p None None now m))) tid)
           = Some (message st)
     \<and> getStage (snd (updateProgress tid p None None now m)) tid = Some ''processing''
     \<and> map_option message (map_of (loadingStates (snd (updateProgress tid p msg stg now m))) tid)
           = Some (case msg of None \<Rightarrow> message st | Some t \<Rightarrow> if t \<noteq> [] then t else message st)
     \<and> getStage (snd (updateProgress tid p msg stg now m)) tid
           = Some (case stg of None \<Rightarrow> ''processing'' | Some g \<Rightarrow> g)"
  using updateProgress_tracked [OF tracked, of p None None now]
    updateProgress_tracked [OF tracked, of p msg stg now]
  by (auto simp: getStage_def)

theorem updateProgress_keeps_message_sets_stage_witness:
  "map_of (loadingStates demo_loading) ''t1''
     = Some \<lparr>taskId = ''t1'', message = default_loading_message, progress = Finite 0,
             stage = ''initializing'', startTime = 0, estimatedTimeRemaining = None, finished = None\<rparr>
   \<and> map_option message (map_of (loadingStates (snd (updateProgress ''t1'' (Finite 10) None None 5 demo_loading))) ''t1'')
       = Some default_loading_message
   \<and> getStage (snd (updateProgress ''t1'' (Finite 10) None None 5 demo_loading)) ''t1'' = Some ''processing''"
  using updateProgress_keeps_message_sets_stage [OF demo_loading_t1(1), of "Finite 10" 5 None None] demo_loading_t1
  by simp

text \<open>
  C2, as stated, fails: the task \<open>t1\<close> is in stage \<open>initializing\<close> after
  \<open>startLoading\<close>, and in stage \<open>processing\<close> after \<open>updateProgress("t1", 10)\<close>.
\<close>

theorem updateProgress_default_stage_counterexample:
  "getStage demo_loading ''t1'' = Some ''initializing''
   \<and> getStage (snd (updateProgress ''t1'' (Finite 10) None None 5 demo_loading)) ''t1'' = Some ''processing''"
  using updateProgress_tracked [OF demo_loading_t1(1), of "Finite 10" None None 5]
  by (auto simp: getStage_def demo_loading_t1)

text \<open>
  C3, as amended. For a task that is not tracked, \<open>updateProgress\<close> returns
  normally, changes nothing and logs one warning; \<open>finishLoading\<close> returns normally
  and changes nothing at all: no state, no timer, no output.
\<close>

theorem unknown_task_is_ignored:
  assumes unknown: "map_of (loadingStates m) tid = None"
  shows "updateProgress tid p msg stg now m
           = (Returned, m\<lparr>lsm_console := lsm_console m @ [Warn_no_loading_state tid]\<rparr>)
     \<and> finishLoading tid success fmsg m = (Returned, m)"
  using unknown by (simp add: updateProgress_def finishLoading_def)

theorem unknown_task_is_ignored_witness:
  "map_of (loadingStates demo_loading) ''ghost'' = None
   \<and> updateProgress ''ghost'' (Finite 40) None None 9 demo_loading
       = (Returned, demo_loading\<lparr>lsm_console := lsm_console demo_loading @ [Warn_no_loading_state ''ghost'']\<rparr>)
   \<and> finishLoading ''ghost'' None None demo_loading = (Returned, demo_loading)"
proof -
  have unknown: "map_of (loadingStates demo_loading) ''ghost'' = None"
    by (simp add: demo_loading_def startLoading_def new_LoadingStateManager_def page_found_def
      updateUI_def updateMessage_def updateStageIndicator_def showLoadingContainer_def andThen_def)
  from unknown_task_is_ignored [OF unknown] unknown show ?thesis by simp
qed

text \<open>
  C3, as stated, fails for \<open>finishLoading\<close>: on the untracked task \<open>ghost\<close> it logs
  nothing.
\<close>

theorem finishLoading_unknown_logs_nothing_counterexample:
  "map_of (loadingStates demo_loading) ''ghost'' = None
   \<and> lsm_console (snd (finishLoading ''ghost'' (Some True) (Some ''done'') demo_loading))
       = lsm_console demo_loading"
  by (simp add: finishLoading_def demo_loading_def startLoading_def new_LoadingStateManager_def page_found_def
      updateUI_def updateMessage_def updateStageIndicator_def showLoadingContainer_def andThen_def)

section \<open>Claims about the WebSocketManager\<close>

text \<open>
  When the state is not \<open>OPEN\<close>, \<open>send\<close> transmits nothing, logs the warning and
  returns, as long as the manager holds a socket whenever its flag \<open>isConnected\<close> is
  set.
\<close>

lemma send_when_not_open:
  assumes closed: "getState m \<noteq> ''OPEN''" and coherent: "isConnected m \<longrightarrow> socket m \<noteq> None"
  shows "send data m = (Returned, m\<lparr>ws_console := ws_console m @ [Warn_not_connected]\<rparr>)"
  using closed coherent
  by (auto simp: send_def getState_def split: option.splits ready_state.splits)

text \<open>
  C6. \<open>send\<close> while the state is not \<open>OPEN\<close> is to log a warning and throw nothing.
  After the events \<open>stale_open\<close> (and after \<open>stale_open_short\<close>) the manager holds no
  socket, so that \<open>getState()\<close> is \<open>CLOSED\<close>, while a socket it no longer holds has
  opened and set \<open>isConnected\<close>: \<open>send\<close> then reads \<open>readyState\<close> of \<open>null\<close> and
  throws a \<open>TypeError\<close>.
\<close>

theorem send_throws_after_stale_open:
  "map_option (getState \<circ> snd) (play stale_open demo_manager) = Some ''CLOSED''
   \<and> map_option fst (play (stale_open @ [Call_send (Data 0)]) demo_manager) = Some (Threw TypeError)
   \<and> map_option (getState \<circ> snd) (play stale_open_short demo_manager) = Some ''CLOSED''
   \<and> map_option fst (play (stale_open_short @ [Call_send (Data 0)]) demo_manager) = Some (Threw TypeError)"
  by (simp add: stale_open_def stale_open_short_def demo_manager_def new_WebSocketManager_def or_default_def
      connect_def close_def send_def getState_def readyState_def stopHeartbeat_def startHeartbeat_def
      socket_close_def onopen_def onclose_def reconnect_def ws_emit_def Let_def)

end
